theory Spec2Isabelle
  imports Main "HOL-Library.Sublist"
begin

section \<open>The icon search component (src/components/SearchClient.tsx)\<close>

text \<open>
  The component keeps a query string, a browse-all flag, a copy marker, a theme and the
  time of the last Escape press, and derives the list of icons to show from them.
  Its functions are embedded one by one, under the names they have in the source.
\<close>

subsection \<open>Strings\<close>

text \<open>
  A string is a \<^typ>\<open>string\<close>: one \<^typ>\<open>char\<close> per UTF-16 code unit, the char being
  the code unit's number, so the strings covered are those over U+0000 .. U+00FF. On
  these, \<open>toLowerCase\<close>, \<open>trim\<close>, \<open>includes\<close>, \<open>split\<close> and \<open>join\<close> are as
  ECMAScript defines them.
\<close>

text \<open>
  \<open>String.prototype.toLowerCase\<close>: in U+0000 .. U+00FF the characters with a lowercase
  mapping are A .. Z (65 .. 90) and U+00C0 .. U+00DE without the multiplication sign
  U+00D7 (215); each maps to the character 32 places further.
\<close>

definition toLowerCase_char :: "char \<Rightarrow> char" where
  "toLowerCase_char c =
     (let n = (of_char c :: nat)
      in if (65 \<le> n \<and> n \<le> 90) \<or> (192 \<le> n \<and> n \<le> 222 \<and> n \<noteq> 215)
         then char_of (n + 32) else c)"

definition toLowerCase :: "string \<Rightarrow> string" where
  "toLowerCase s = map toLowerCase_char s"

text \<open>
  The white space and line terminators that \<open>String.prototype.trim\<close> strips, in
  U+0000 .. U+00FF: TAB, LF, VT, FF, CR, SPACE and NO-BREAK SPACE.
\<close>

definition isWhiteSpace :: "char \<Rightarrow> bool" where
  "isWhiteSpace c = ((of_char c :: nat) \<in> {9, 10, 11, 12, 13, 32, 160})"

definition trim :: "string \<Rightarrow> string" where
  "trim s = rev (dropWhile isWhiteSpace (rev (dropWhile isWhiteSpace s)))"

text \<open>\<open>s.includes(q)\<close>: \<open>q\<close> occurs in \<open>s\<close> at some position.\<close>

fun includes_str :: "string \<Rightarrow> string \<Rightarrow> bool" where
  "includes_str [] q = (q = [])"
| "includes_str (x # xs) q = (prefix q (x # xs) \<or> includes_str xs q)"

text \<open>\<open>s.split(c)\<close> for a separator of one character: never the empty array.\<close>

fun split_str :: "char \<Rightarrow> string \<Rightarrow> string list" where
  "split_str c [] = [[]]"
| "split_str c (x # xs) =
     (if x = c then [] # split_str c xs
      else (case split_str c xs of
              [] \<Rightarrow> [[x]]
            | p # ps \<Rightarrow> (x # p) # ps))"

text \<open>\<open>parts.join(sep)\<close>.\<close>

fun join_str :: "string \<Rightarrow> string list \<Rightarrow> string" where
  "join_str sep [] = []"
| "join_str sep [p] = p"
| "join_str sep (p # q # ps) = p @ sep @ join_str sep (q # ps)"

subsection \<open>Data\<close>

text \<open>The interface \<open>Icon\<close>; its optional fields are options.\<close>

record icon =
  name :: string
  import_path :: string
  provider :: string
  module_opt :: "string option"
  docstring :: "string option"

text \<open>Two records of the kind the generated icon list holds, used as test data.\<close>

definition ec2 :: icon where
  "ec2 = \<lparr>name = ''EC2'', import_path = ''aws.compute.EC2'', provider = ''aws'',
     module_opt = None, docstring = None\<rparr>"

definition aks :: icon where
  "aks = \<lparr>name = ''AKS'', import_path = ''azure.compute.AKS'', provider = ''azure'',
     module_opt = None, docstring = None\<rparr>"

datatype theme = Light | Dark

text \<open>
  The state of a mounted component: the four \<open>useState\<close> cells, the ref
  \<open>lastEscapeTime\<close>, and what the component reaches of its platform: whether the search
  input has the focus, the clipboard's text, and the due times of the pending
  \<open>setTimeout\<close> callbacks, oldest first. Every callback the component schedules is
  \<open>() => setCopied(null)\<close>, so a due time is all a pending timer holds.
\<close>

record session =
  query :: string
  copied :: "string option"
  showAll :: bool
  theme :: theme
  lastEscapeTime :: int
  focused :: bool
  clipboard :: string
  timers :: "int list"

text \<open>The state after the first render, on a platform that prefers \<open>t\<close>.\<close>

definition initial :: "theme \<Rightarrow> session" where
  "initial t = \<lparr>query = [], copied = None, showAll = False, theme = t,
     lastEscapeTime = 0, focused = False, clipboard = [], timers = []\<rparr>"

subsection \<open>Theme\<close>

definition toggleTheme :: "session \<Rightarrow> session" where
  "toggleTheme s = s\<lparr>theme := (if theme s = Light then Dark else Light)\<rparr>"

subsection \<open>The filtered list\<close>

text \<open>
  The \<open>useMemo\<close> value \<open>filtered\<close>, as a function of its three dependencies. An empty
  string is the only falsy one, so \<open>!query.trim()\<close> is \<open>trim query = []\<close>.
\<close>

definition filtered :: "icon list \<Rightarrow> string \<Rightarrow> bool \<Rightarrow> icon list" where
  "filtered icons q sa =
     (if trim q = [] \<and> \<not> sa then []
      else let lowerQuery = toLowerCase q
           in filter (\<lambda>i. includes_str (toLowerCase (name i)) lowerQuery \<or>
                           includes_str (toLowerCase (import_path i)) lowerQuery) icons)"

subsection \<open>Derived fields of a result\<close>

text \<open>
  \<open>getImportParts\<close>. Reading an array out of range gives \<open>undefined\<close>, which is
  \<open>None\<close> here; \<open>slice(0, -1)\<close> drops the last element, and gives the empty array on the
  empty array.
\<close>

record import_parts =
  className :: "string option"
  modulePath :: string

definition getImportParts :: "icon \<Rightarrow> import_parts" where
  "getImportParts i =
     (let parts = split_str (CHR ''.'') (import_path i)
      in \<lparr>className = (if length parts = 0 then None else Some (parts ! (length parts - 1))),
          modulePath = join_str ''.'' (butlast parts)\<rparr>)"

definition normalizeProvider :: "string \<Rightarrow> string" where
  "normalizeProvider p =
     (if includes_str p ''aws'' then ''aws''
      else if includes_str p ''azure'' then ''azure''
      else if includes_str p ''gcp'' \<or> includes_str p ''google'' then ''gcp''
      else if includes_str p ''k8s'' \<or> includes_str p ''kubernetes'' then ''k8s''
      else if includes_str p ''alibaba'' then ''alibabacloud''
      else ''default'')"

subsection \<open>Copying\<close>

text \<open>
  \<open>copyToClipboard(text, id)\<close> called at time \<open>now\<close> (milliseconds): the text goes to the
  clipboard, \<open>copied\<close> becomes \<open>id\<close>, and a callback is scheduled 2000 ms later.
\<close>

definition copyToClipboard :: "string \<Rightarrow> string \<Rightarrow> int \<Rightarrow> session \<Rightarrow> session" where
  "copyToClipboard text' ident now s =
     s\<lparr>clipboard := text', copied := Some ident, timers := timers s @ [now + 2000]\<rparr>"

text \<open>The scheduled callback \<open>() => setCopied(null)\<close>.\<close>

definition timeout_callback :: "session \<Rightarrow> session" where
  "timeout_callback s = s\<lparr>copied := None\<rparr>"

text \<open>
  The event loop at time \<open>now\<close>: every pending callback that is due runs, oldest first,
  and leaves the list of pending timers.
\<close>

definition run_timers :: "int \<Rightarrow> session \<Rightarrow> session" where
  "run_timers now s =
     (fold (\<lambda>_. timeout_callback) (filter (\<lambda>t. t \<le> now) (timers s)) s)
       \<lparr>timers := filter (\<lambda>t. \<not> t \<le> now) (timers s)\<rparr>"

subsection \<open>Keyboard shortcuts\<close>

record key_event =
  metaKey :: bool
  ctrlKey :: bool
  key :: string

text \<open>
  \<open>handleKeyDown(e)\<close>, with \<open>now\<close> the value \<open>Date.now()\<close> returns in it. The result
  pairs whether \<open>e.preventDefault()\<close> was called with the new state.
\<close>

definition handleKeyDown :: "key_event \<Rightarrow> int \<Rightarrow> session \<Rightarrow> bool \<times> session" where
  "handleKeyDown e now s =
     (let (prevented, s1) =
            (if (metaKey e \<or> ctrlKey e) \<and> key e = ''k''
             then (True, s\<lparr>focused := True\<rparr>) else (False, s));
          s2 = (if key e = ''Escape''
                then (let s' = (if now - lastEscapeTime s1 < 300
                                then s1\<lparr>query := [], focused := False\<rparr> else s1)
                      in s'\<lparr>lastEscapeTime := now\<rparr>)
                else s1)
      in (prevented, s2))"

text \<open>
  Test data: a plain Escape press, and a session in which \<open>aws\<close> has been typed into
  the focused search input and Escape was last pressed at time 1000.
\<close>

definition escape :: key_event where
  "escape = \<lparr>metaKey = False, ctrlKey = False, key = ''Escape''\<rparr>"

definition typing :: session where
  "typing = (initial Light)\<lparr>query := ''aws'', focused := True, lastEscapeTime := 1000\<rparr>"

section \<open>Properties\<close>

subsection \<open>Theme toggle\<close>

text \<open>
  C10. The theme toggle maps light to dark and dark to light, so its result is one of
  the two themes, and toggling twice restores the state it started from: the toggle is
  an involution.
\<close>

theorem toggleTheme_involution:
  "theme (toggleTheme (s\<lparr>theme := Light\<rparr>)) = Dark \<and>
   theme (toggleTheme (s\<lparr>theme := Dark\<rparr>)) = Light \<and>
   theme (toggleTheme s) \<in> {Light, Dark} \<and>
   toggleTheme (toggleTheme s) = s"
  by (cases "theme s") (simp_all add: toggleTheme_def)

subsection \<open>Facts about the string functions\<close>

text \<open>\<open>includes\<close> is the contiguous-sublist relation of the list library.\<close>

lemma includes_str_sublist: "includes_str s q = sublist q s"
  by (induction s) (auto simp: sublist_Cons_right)

lemma of_char_toLowerCase_char:
  "(of_char (toLowerCase_char c) :: nat) =
     (let n = of_char c
      in if (65 \<le> n \<and> n \<le> 90) \<or> (192 \<le> n \<and> n \<le> 222 \<and> n \<noteq> 215)
         then n + 32 else n)"
  by (simp add: toLowerCase_char_def Let_def)

text \<open>Lowercasing neither makes nor removes white space.\<close>

lemma isWhiteSpace_toLowerCase_char: "isWhiteSpace (toLowerCase_char c) = isWhiteSpace c"
  unfolding isWhiteSpace_def of_char_toLowerCase_char by (simp add: Let_def)

text \<open>A string trims to the empty string exactly when it is all white space.\<close>

lemma trim_empty_iff: "trim s = [] \<longleftrightarrow> (\<forall>c\<in>set s. isWhiteSpace c)"
proof
  assume "trim s = []"
  then have all: "\<forall>c\<in>set (dropWhile isWhiteSpace s). isWhiteSpace c"
    by (simp add: trim_def)
  have "dropWhile isWhiteSpace s = []"
  proof (rule ccontr)
    assume ne: "dropWhile isWhiteSpace s \<noteq> []"
    then have "\<not> isWhiteSpace (hd (dropWhile isWhiteSpace s))"
      by (rule hd_dropWhile)
    moreover have "hd (dropWhile isWhiteSpace s) \<in> set (dropWhile isWhiteSpace s)"
      using ne by simp
    ultimately show False using all by blast
  qed
  then show "\<forall>c\<in>set s. isWhiteSpace c"
    by simp
next
  assume "\<forall>c\<in>set s. isWhiteSpace c"
  then show "trim s = []"
    by (auto simp: trim_def dest: set_dropWhileD)
qed

lemma trim_toLowerCase_empty: "trim (toLowerCase q) = [] \<longleftrightarrow> trim q = []"
  by (simp add: trim_empty_iff toLowerCase_def isWhiteSpace_toLowerCase_char)

subsection \<open>The filtered list\<close>

lemma filtered_shown:
  "trim q \<noteq> [] \<or> sa \<Longrightarrow>
   filtered icons q sa =
     filter (\<lambda>i. sublist (toLowerCase q) (toLowerCase (name i)) \<or>
                 sublist (toLowerCase q) (toLowerCase (import_path i))) icons"
  by (auto simp: filtered_def Let_def includes_str_sublist)

text \<open>
  C1. When the trimmed query is not empty or \<open>showAll\<close> is set, the filter returns
  exactly the records of the input list whose lowercased \<open>name\<close> or lowercased
  \<open>import_path\<close> contains the lowercased query as a substring, in the order of the input
  list; every record it returns passes one of the two checks.
\<close>

theorem filtered_substring_match:
  "(trim q \<noteq> [] \<or> sa \<longrightarrow>
      filtered icons q sa =
        filter (\<lambda>i. sublist (toLowerCase q) (toLowerCase (name i)) \<or>
                    sublist (toLowerCase q) (toLowerCase (import_path i))) icons) \<and>
   subseq (filtered icons q sa) icons \<and>
   (\<forall>i\<in>set (filtered icons q sa).
      sublist (toLowerCase q) (toLowerCase (name i)) \<or>
      sublist (toLowerCase q) (toLowerCase (import_path i)))"
proof (cases "trim q \<noteq> [] \<or> sa")
  case True
  then show ?thesis by (simp add: filtered_shown)
next
  case False
  then show ?thesis by (simp add: filtered_def)
qed

theorem filtered_substring_match_witness:
  "trim ''ec'' \<noteq> [] \<and> filtered [ec2, aks] ''ec'' False = [ec2]"
proof (intro conjI)
  show a: "trim ''ec'' \<noteq> []" by code_simp
  then have "trim ''ec'' \<noteq> [] \<or> False" ..
  then have "filtered [ec2, aks] ''ec'' False =
      filter (\<lambda>i. sublist (toLowerCase ''ec'') (toLowerCase (name i)) \<or>
                  sublist (toLowerCase ''ec'') (toLowerCase (import_path i))) [ec2, aks]"
    by (rule mp [OF conjunct1 [OF filtered_substring_match]])
  also have "\<dots> = [ec2]" by code_simp
  finally show "filtered [ec2, aks] ''ec'' False = [ec2]" .
qed

text \<open>
  C2. If the query is empty after trimming white space and \<open>showAll\<close> is false, the
  filter returns the empty list, whatever the icon list.
\<close>

theorem filtered_default_empty:
  "trim q = [] \<Longrightarrow> filtered icons q False = []"
  by (simp add: filtered_def)

theorem filtered_default_empty_witness:
  "trim ''  '' = [] \<and> filtered [ec2, aks] ''  '' False = []"
proof (intro conjI)
  show h: "trim ''  '' = []" by code_simp
  show "filtered [ec2, aks] ''  '' False = []"
    by (rule filtered_default_empty [OF h])
qed

text \<open>
  C5. With the empty query and \<open>showAll\<close> set, the filter returns the whole input list:
  every record, in the original order.
\<close>

theorem filtered_browse_all:
  "filtered icons [] True = icons"
  by (simp add: filtered_def toLowerCase_def includes_str_sublist)

text \<open>
  C8. The queries \<open>AWS\<close> and \<open>aws\<close> give the same result, for every icon list and
  flag; in general two queries that are equal up to letter case (their lowercase forms
  are equal) give the same result.
\<close>

theorem filtered_case_insensitive:
  "filtered icons ''AWS'' sa = filtered icons ''aws'' sa \<and>
   (toLowerCase q1 = toLowerCase q2 \<longrightarrow> filtered icons q1 sa = filtered icons q2 sa)"
proof
  have "toLowerCase ''AWS'' = toLowerCase ''aws''" by code_simp
  moreover have "trim ''AWS'' \<noteq> []" "trim ''aws'' \<noteq> []" by code_simp+
  ultimately show "filtered icons ''AWS'' sa = filtered icons ''aws'' sa"
    by (simp add: filtered_def)
next
  show "toLowerCase q1 = toLowerCase q2 \<longrightarrow> filtered icons q1 sa = filtered icons q2 sa"
  proof
    assume eq: "toLowerCase q1 = toLowerCase q2"
    then have "trim q1 = [] \<longleftrightarrow> trim q2 = []"
      using trim_toLowerCase_empty [of q1] trim_toLowerCase_empty [of q2] by simp
    with eq show "filtered icons q1 sa = filtered icons q2 sa"
      by (simp add: filtered_def)
  qed
qed

theorem filtered_case_insensitive_witness:
  "toLowerCase ''Ec'' = toLowerCase ''eC'' \<and>
   filtered [ec2, aks] ''Ec'' False = filtered [ec2, aks] ''eC'' False \<and>
   filtered [ec2, aks] ''eC'' False = [ec2]"
proof (intro conjI)
  show h: "toLowerCase ''Ec'' = toLowerCase ''eC''" by code_simp
  show "filtered [ec2, aks] ''Ec'' False = filtered [ec2, aks] ''eC'' False"
    by (rule mp [OF conjunct2 [OF filtered_case_insensitive] h])
  show "filtered [ec2, aks] ''eC'' False = [ec2]" by code_simp
qed

text \<open>
  C9. For a query whose trimmed form is not empty, the result with \<open>showAll\<close> set equals
  the result with \<open>showAll\<close> unset; so a query that no record matches gives the empty
  list even when \<open>showAll\<close> is set.
\<close>

theorem filtered_showAll_irrelevant:
  assumes "trim q \<noteq> []"
  shows "filtered icons q True = filtered icons q False \<and>
         ((\<forall>i\<in>set icons. \<not> sublist (toLowerCase q) (toLowerCase (name i)) \<and>
                          \<not> sublist (toLowerCase q) (toLowerCase (import_path i)))
          \<longrightarrow> filtered icons q True = [])"
  using assms by (auto simp: filtered_def Let_def includes_str_sublist filter_empty_conv)

theorem filtered_showAll_irrelevant_witness:
  "trim ''zzz'' \<noteq> [] \<and>
   filtered [ec2, aks] ''zzz'' True = filtered [ec2, aks] ''zzz'' False \<and>
   filtered [ec2, aks] ''zzz'' True = []"
proof (intro conjI)
  show h: "trim ''zzz'' \<noteq> []" by code_simp
  show "filtered [ec2, aks] ''zzz'' True = filtered [ec2, aks] ''zzz'' False"
    by (rule conjunct1 [OF filtered_showAll_irrelevant [OF h]])
  show "filtered [ec2, aks] ''zzz'' True = []" by code_simp
qed

subsection \<open>Import parts\<close>

lemma split_str_not_Nil: "split_str c s \<noteq> []"
  by (induction s) (auto split: list.splits)

lemma join_split_str: "join_str [c] (split_str c s) = s"
proof (induction s)
  case Nil
  then show ?case by simp
next
  case (Cons x xs)
  obtain p ps where ps: "split_str c xs = p # ps"
    using split_str_not_Nil [of c xs] by (cases "split_str c xs") auto
  show ?case
  proof (cases "x = c")
    case True
    with Cons ps show ?thesis by simp
  next
    case False
    with Cons ps show ?thesis by (cases ps) auto
  qed
qed

lemma split_str_segments: "p \<in> set (split_str c s) \<Longrightarrow> c \<notin> set p"
  by (induction s arbitrary: p) (auto split: if_splits list.splits)

lemma split_str_no_sep: "c \<notin> set s \<Longrightarrow> split_str c s = [s]"
  by (induction s) auto

lemma split_str_sep_length: "c \<in> set s \<Longrightarrow> 2 \<le> length (split_str c s)"
  using split_str_not_Nil [of c]
  by (induction s) (auto split: list.splits simp: Suc_le_eq)

lemma join_str_Cons: "ps \<noteq> [] \<Longrightarrow> join_str sep (p # ps) = p @ sep @ join_str sep ps"
  by (cases ps) auto

lemma join_str_snoc: "ps \<noteq> [] \<Longrightarrow> join_str sep (ps @ [q]) = join_str sep ps @ sep @ q"
proof (induction ps)
  case Nil
  then show ?case by simp
next
  case (Cons p ps)
  show ?case
  proof (cases "ps = []")
    case True
    then show ?thesis by simp
  next
    case False
    with Cons show ?thesis by (simp add: join_str_Cons)
  qed
qed

lemma join_str_butlast_last:
  assumes "2 \<le> length ps"
  shows "join_str sep ps = join_str sep (butlast ps) @ sep @ last ps"
proof -
  from assms have ne: "ps \<noteq> []" and bne: "butlast ps \<noteq> []"
    by (auto simp: butlast_conv_take)
  from ne have "ps = butlast ps @ [last ps]" by simp
  then have "join_str sep ps = join_str sep (butlast ps @ [last ps])" by simp
  also have "\<dots> = join_str sep (butlast ps) @ sep @ last ps"
    using bne by (rule join_str_snoc)
  finally show ?thesis .
qed

lemma split_str_at_last_sep:
  assumes "c \<in> set s"
  shows "s = join_str [c] (butlast (split_str c s)) @ [c] @ last (split_str c s)"
  using join_str_butlast_last [OF split_str_sep_length [OF assms], of "[c]"]
  by (simp add: join_split_str)

lemma getImportParts_className:
  "className (getImportParts i) = Some (last (split_str (CHR ''.'') (import_path i)))"
  by (simp add: getImportParts_def Let_def split_str_not_Nil last_conv_nth)

lemma getImportParts_modulePath:
  "modulePath (getImportParts i) = join_str ''.'' (butlast (split_str (CHR ''.'') (import_path i)))"
  by (simp add: getImportParts_def Let_def)

text \<open>
  C6. For an \<open>import_path\<close> with at least one dot, \<open>className\<close> is its last
  dot-separated segment (the text after the last dot) and \<open>modulePath\<close> is the segments
  before it joined with dots (the text before the last dot); \<open>aws.compute.EC2\<close> gives
  \<open>EC2\<close> and \<open>aws.compute\<close>. For an \<open>import_path\<close> with no dot, \<open>className\<close> is the
  whole string and \<open>modulePath\<close> is empty. In both cases \<open>className\<close> is a string, never
  \<open>undefined\<close>.
\<close>

theorem getImportParts_correct:
  "(CHR ''.'' \<in> set (import_path i) \<longrightarrow>
      (\<exists>cn. className (getImportParts i) = Some cn \<and> CHR ''.'' \<notin> set cn \<and>
            import_path i = modulePath (getImportParts i) @ ''.'' @ cn \<and>
            cn = last (split_str (CHR ''.'') (import_path i)) \<and>
            modulePath (getImportParts i) =
              join_str ''.'' (butlast (split_str (CHR ''.'') (import_path i))))) \<and>
   (CHR ''.'' \<notin> set (import_path i) \<longrightarrow>
      className (getImportParts i) = Some (import_path i) \<and>
      modulePath (getImportParts i) = []) \<and>
   getImportParts ec2 = \<lparr>className = Some ''EC2'', modulePath = ''aws.compute''\<rparr>"
proof (intro conjI impI)
  assume dot: "CHR ''.'' \<in> set (import_path i)"
  let ?parts = "split_str (CHR ''.'') (import_path i)"
  have "last ?parts \<in> set ?parts"
    by (simp add: split_str_not_Nil)
  then have "CHR ''.'' \<notin> set (last ?parts)"
    by (rule split_str_segments)
  moreover have "import_path i = modulePath (getImportParts i) @ ''.'' @ last ?parts"
    using split_str_at_last_sep [OF dot] by (simp add: getImportParts_modulePath)
  ultimately show "\<exists>cn. className (getImportParts i) = Some cn \<and> CHR ''.'' \<notin> set cn \<and>
            import_path i = modulePath (getImportParts i) @ ''.'' @ cn \<and>
            cn = last ?parts \<and>
            modulePath (getImportParts i) = join_str ''.'' (butlast ?parts)"
    using getImportParts_className [of i] getImportParts_modulePath [of i] by blast
next
  assume "CHR ''.'' \<notin> set (import_path i)"
  then have "split_str (CHR ''.'') (import_path i) = [import_path i]"
    by (rule split_str_no_sep)
  then show "className (getImportParts i) = Some (import_path i)"
    and "modulePath (getImportParts i) = []"
    by (simp_all add: getImportParts_def)
next
  show "getImportParts ec2 = \<lparr>className = Some ''EC2'', modulePath = ''aws.compute''\<rparr>"
    by code_simp
qed

theorem getImportParts_correct_witness:
  "CHR ''.'' \<in> set (import_path ec2) \<and>
   (\<exists>cn. className (getImportParts ec2) = Some cn \<and> CHR ''.'' \<notin> set cn \<and>
         import_path ec2 = modulePath (getImportParts ec2) @ ''.'' @ cn) \<and>
   CHR ''.'' \<notin> set (import_path (ec2\<lparr>import_path := ''EC2''\<rparr>)) \<and>
   className (getImportParts (ec2\<lparr>import_path := ''EC2''\<rparr>)) = Some ''EC2'' \<and>
   modulePath (getImportParts (ec2\<lparr>import_path := ''EC2''\<rparr>)) = []"
proof -
  have dot: "CHR ''.'' \<in> set (import_path ec2)" by code_simp
  have nodot: "CHR ''.'' \<notin> set (import_path (ec2\<lparr>import_path := ''EC2''\<rparr>))" by code_simp
  from getImportParts_correct [of ec2] dot
  have a: "\<exists>cn. className (getImportParts ec2) = Some cn \<and> CHR ''.'' \<notin> set cn \<and>
         import_path ec2 = modulePath (getImportParts ec2) @ ''.'' @ cn"
    by blast
  from getImportParts_correct [of "ec2\<lparr>import_path := ''EC2''\<rparr>"] nodot
  have b: "className (getImportParts (ec2\<lparr>import_path := ''EC2''\<rparr>)) = Some ''EC2'' \<and>
      modulePath (getImportParts (ec2\<lparr>import_path := ''EC2''\<rparr>)) = []"
    by simp
  from dot a nodot b show ?thesis by blast
qed

subsection \<open>Provider tags\<close>

text \<open>
  C3, as the code has it. The provider string is searched as it is given, with no
  change of case, for the lowercase keywords in the order aws, azure, gcp or google, k8s
  or kubernetes, alibaba; the first keyword found gives the tag, and the tag is
  \<open>default\<close> when none is found. So \<open>azure\<close>, \<open>google cloud\<close> and \<open>kubernetes\<close> get the
  tags azure, gcp and k8s, \<open>Unknown Corp\<close> gets the default tag, and so do the
  capitalised \<open>Azure\<close>, \<open>Google Cloud\<close> and \<open>Kubernetes\<close>.
\<close>

theorem normalizeProvider_priority:
  "normalizeProvider p =
     (if sublist ''aws'' p then ''aws''
      else if sublist ''azure'' p then ''azure''
      else if sublist ''gcp'' p \<or> sublist ''google'' p then ''gcp''
      else if sublist ''k8s'' p \<or> sublist ''kubernetes'' p then ''k8s''
      else if sublist ''alibaba'' p then ''alibabacloud''
      else ''default'') \<and>
   normalizeProvider ''azure'' = ''azure'' \<and>
   normalizeProvider ''google cloud'' = ''gcp'' \<and>
   normalizeProvider ''kubernetes'' = ''k8s'' \<and>
   normalizeProvider ''Unknown Corp'' = ''default'' \<and>
   normalizeProvider ''Azure'' = ''default'' \<and>
   normalizeProvider ''Google Cloud'' = ''default'' \<and>
   normalizeProvider ''Kubernetes'' = ''default''"
proof (intro conjI)
  show "normalizeProvider p =
     (if sublist ''aws'' p then ''aws''
      else if sublist ''azure'' p then ''azure''
      else if sublist ''gcp'' p \<or> sublist ''google'' p then ''gcp''
      else if sublist ''k8s'' p \<or> sublist ''kubernetes'' p then ''k8s''
      else if sublist ''alibaba'' p then ''alibabacloud''
      else ''default'')"
    unfolding normalizeProvider_def includes_str_sublist ..
qed code_simp+

text \<open>
  The classification is not case-insensitive: the three capitalised examples of C3 do
  not get the tags the claim gives them.
\<close>

theorem normalizeProvider_case_sensitive:
  "normalizeProvider ''Azure'' \<noteq> ''azure'' \<and>
   normalizeProvider ''Google Cloud'' \<noteq> ''gcp'' \<and>
   normalizeProvider ''Kubernetes'' \<noteq> ''k8s''"
  by code_simp

subsection \<open>Double Escape\<close>

text \<open>
  C7. An Escape press less than 300 ms after the time stored for the previous one
  clears the query and takes the focus from the search input; an Escape press 300 ms or
  more after it changes nothing but the stored time, and so does a first press (stored
  time 0) at any clock value from 300 on. In every case the press stores its own time,
  and \<open>preventDefault\<close> is not called.
\<close>

theorem handleKeyDown_escape:
  assumes "key e = ''Escape''"
  shows "(now - lastEscapeTime s < 300 \<longrightarrow>
            handleKeyDown e now s =
              (False, s\<lparr>query := [], focused := False, lastEscapeTime := now\<rparr>)) \<and>
         (300 \<le> now - lastEscapeTime s \<longrightarrow>
            handleKeyDown e now s = (False, s\<lparr>lastEscapeTime := now\<rparr>)) \<and>
         (lastEscapeTime s = 0 \<and> 300 \<le> now \<longrightarrow>
            handleKeyDown e now s = (False, s\<lparr>lastEscapeTime := now\<rparr>)) \<and>
         lastEscapeTime (snd (handleKeyDown e now s)) = now"
  using assms by (simp add: handleKeyDown_def)

theorem handleKeyDown_escape_witness:
  "key escape = ''Escape'' \<and>
   handleKeyDown escape 1200 typing =
     (False, typing\<lparr>query := [], focused := False, lastEscapeTime := 1200\<rparr>) \<and>
   handleKeyDown escape 1400 typing = (False, typing\<lparr>lastEscapeTime := 1400\<rparr>) \<and>
   handleKeyDown escape 1700000000000 (initial Light) =
     (False, (initial Light)\<lparr>lastEscapeTime := 1700000000000\<rparr>)"
proof (intro conjI)
  show k: "key escape = ''Escape''"
    by (simp add: escape_def)
  have near: "1200 - lastEscapeTime typing < 300"
    by (simp add: typing_def)
  have far: "300 \<le> 1400 - lastEscapeTime typing"
    by (simp add: typing_def)
  have first: "lastEscapeTime (initial Light) = 0 \<and> (300::int) \<le> 1700000000000"
    by (simp add: initial_def)
  show "handleKeyDown escape 1200 typing =
      (False, typing\<lparr>query := [], focused := False, lastEscapeTime := 1200\<rparr>)"
    using handleKeyDown_escape [OF k, of 1200 typing] near by blast
  show "handleKeyDown escape 1400 typing = (False, typing\<lparr>lastEscapeTime := 1400\<rparr>)"
    using handleKeyDown_escape [OF k, of 1400 typing] far by blast
  show "handleKeyDown escape 1700000000000 (initial Light) =
      (False, (initial Light)\<lparr>lastEscapeTime := 1700000000000\<rparr>)"
    using handleKeyDown_escape [OF k, of 1700000000000 "initial Light"] first by blast
qed

subsection \<open>Copy confirmation\<close>

lemma copied_fold_timeout:
  "copied (fold (\<lambda>_. timeout_callback) ts s) = (if ts = [] then copied s else None)"
  by (induction ts arbitrary: s) (auto simp: timeout_callback_def)

lemma copied_run_timers:
  "copied (run_timers now s) = (if \<exists>t\<in>set (timers s). t \<le> now then None else copied s)"
  by (auto simp: run_timers_def copied_fold_timeout filter_empty_conv)

lemma timers_run_timers:
  "timers (run_timers now s) = filter (\<lambda>t. \<not> t \<le> now) (timers s)"
  by (simp add: run_timers_def)

text \<open>
  C4, as the code has it. Copying item A sets \<open>copied\<close> to A; copying item B before A's
  2000 ms have passed sets \<open>copied\<close> to B at once; and when A's scheduled callback runs,
  at A's due time or later, it sets \<open>copied\<close> to none whatever \<open>copied\<close> holds, so B's
  confirmation is erased, also while B's own callback is still pending.
\<close>

theorem copy_expiry_unguarded:
  assumes "tA \<le> tB" and "tB < tA + 2000" and "tA + 2000 \<le> t"
  shows "copied (copyToClipboard xa a tA s) = Some a \<and>
         copied (copyToClipboard xb b tB (copyToClipboard xa a tA s)) = Some b \<and>
         copied (run_timers t (copyToClipboard xb b tB (copyToClipboard xa a tA s))) = None \<and>
         (t < tB + 2000 \<longrightarrow>
            tB + 2000 \<in> set (timers (run_timers t
              (copyToClipboard xb b tB (copyToClipboard xa a tA s)))))"
  using assms by (auto simp: copied_run_timers timers_run_timers copyToClipboard_def)

theorem copy_expiry_unguarded_witness:
  "(0::int) \<le> 1000 \<and> (1000::int) < 0 + 2000 \<and> (0::int) + 2000 \<le> 2000 \<and>
   (2000::int) < 1000 + 2000 \<and>
   copied (copyToClipboard ''aws.compute.EC2'' ''path-0'' 1000
     (copyToClipboard ''from aws.compute import EC2'' ''card-0'' 0 (initial Light)))
     = Some ''path-0'' \<and>
   copied (run_timers 2000 (copyToClipboard ''aws.compute.EC2'' ''path-0'' 1000
     (copyToClipboard ''from aws.compute import EC2'' ''card-0'' 0 (initial Light))))
     = None \<and>
   1000 + 2000 \<in> set (timers (run_timers 2000
     (copyToClipboard ''aws.compute.EC2'' ''path-0'' 1000
       (copyToClipboard ''from aws.compute import EC2'' ''card-0'' 0 (initial Light)))))"
proof -
  have h1: "(0::int) \<le> 1000" and h2: "(1000::int) < 0 + 2000"
    and h3: "(0::int) + 2000 \<le> 2000" and h4: "(2000::int) < 1000 + 2000"
    by simp_all
  from copy_expiry_unguarded [OF h1 h2 h3] h1 h2 h3 h4 show ?thesis
    by blast
qed

text \<open>
  The callback of the first copy erases the confirmation of the second: item
  \<open>card-0\<close> is copied at time 0 and item \<open>path-0\<close> at time 1000; at time 2000, with the
  timer of \<open>path-0\<close> still pending until 3000, \<open>copied\<close> is no longer \<open>path-0\<close>.
\<close>

theorem copy_expiry_erases_later_copy:
  "copied (copyToClipboard ''aws.compute.EC2'' ''path-0'' 1000
     (copyToClipboard ''from aws.compute import EC2'' ''card-0'' 0 (initial Light)))
     = Some ''path-0'' \<and>
   copied (run_timers 2000 (copyToClipboard ''aws.compute.EC2'' ''path-0'' 1000
     (copyToClipboard ''from aws.compute import EC2'' ''card-0'' 0 (initial Light))))
     \<noteq> Some ''path-0'' \<and>
   timers (run_timers 2000 (copyToClipboard ''aws.compute.EC2'' ''path-0'' 1000
     (copyToClipboard ''from aws.compute import EC2'' ''card-0'' 0 (initial Light))))
     = [3000]"
  by code_simp

end
